theory Spec2Isabelle
  imports Main "HOL-Library.Word"
begin

unbundle bit_operations_syntax

section \<open>JavaScript strings\<close>

text \<open>
  A JavaScript string is a sequence of UTF-16 code units. The column labels of the sheet are
  Korean, and \<open>trim\<close> strips white space beyond ASCII, so strings are modelled as lists
  of 16-bit words and not as lists of 8-bit characters. \<open>str\<close> embeds an ASCII literal.
\<close>

type_synonym jsstring = "16 word list"

definition str :: "string \<Rightarrow> jsstring" where
  "str s = map of_char s"

text \<open>Truthiness of a string: the empty string is the only falsy one.\<close>

definition truthy :: "jsstring \<Rightarrow> bool" where
  "truthy s = (s \<noteq> [])"

section \<open>Raw rows and feedback items\<close>

text \<open>
  \<open>Papa.parse(csvText, {header: true})\<close> yields one object per row, keyed by the header
  labels, every value a string; a key is absent where the row is too short. A raw row is
  therefore a partial map from labels to strings, and reading an absent key gives
  \<open>undefined\<close> (here \<open>None\<close>).
\<close>

type_synonym raw_row = "jsstring \<rightharpoonup> jsstring"

text \<open>
  The objects built by the two routes. The listing route (\<open>GET\<close>) builds objects without
  an \<open>id\<close> property, the ranking route (\<open>POST\<close>) builds them with \<open>id: index\<close>; the
  page's \<open>FeedbackItem\<close> type has no \<open>id\<close> either. \<open>item_id = None\<close> is the object
  without the property.
\<close>

record FeedbackItem =
  item_id :: "nat option"
  category :: jsstring
  problem :: jsstring
  solution1 :: jsstring
  solution2 :: jsstring

text \<open>The header labels and the default category, as UTF-16 code units.\<close>

definition col_category :: jsstring where
  "col_category = [0xB300, 0xBD84, 0xB958]"

definition col_problem :: jsstring where
  "col_problem = [0xBB38, 0xC81C, 0xC810]"

definition col_solution1 :: jsstring where
  "col_solution1 = [0xC194, 0xB8E8, 0xC158, 0x20, 0x28, 0xBC84, 0xC804, 0x31, 0x29]"

definition col_solution :: jsstring where
  "col_solution = [0xC194, 0xB8E8, 0xC158]"

definition col_solution2 :: jsstring where
  "col_solution2 = [0xC194, 0xB8E8, 0xC158, 0x20, 0x28, 0xBC84, 0xC804, 0x32, 0x29]"

definition default_category :: jsstring where
  "default_category = [0xAE30, 0xD0C0]"

text \<open>\<open>a || b\<close> where \<open>a\<close> is a cell that may be absent and \<open>b\<close> is a string.\<close>

definition js_or :: "jsstring option \<Rightarrow> jsstring \<Rightarrow> jsstring" where
  "js_or a b = (case a of None \<Rightarrow> b | Some v \<Rightarrow> if truthy v then v else b)"

text \<open>
  The filter of both routes:
  \<open>item.problem && (item.solution1 || item.solution2)\<close>.
\<close>

definition keep_item :: "FeedbackItem \<Rightarrow> bool" where
  "keep_item item = (truthy (problem item) \<and> (truthy (solution1 item) \<or> truthy (solution2 item)))"

subsection \<open>The listing route: \<open>src/app/api/feedback/route.ts\<close>\<close>

definition get_entry :: "raw_row \<Rightarrow> FeedbackItem" where
  "get_entry row =
     \<lparr> item_id = None,
       category = js_or (row col_category) default_category,
       problem = js_or (row col_problem) [],
       solution1 = js_or (row col_solution1) (js_or (row col_solution) []),
       solution2 = js_or (row col_solution2) [] \<rparr>"

definition get_data :: "raw_row list \<Rightarrow> FeedbackItem list" where
  "get_data rows = filter keep_item (map get_entry rows)"

subsection \<open>The ranking route's normalization: \<open>src/unnamed/part_000\<close>, lines 38 to 44\<close>

definition post_entry :: "nat \<Rightarrow> raw_row \<Rightarrow> FeedbackItem" where
  "post_entry index row =
     \<lparr> item_id = Some index,
       category = js_or (row col_category) default_category,
       problem = js_or (row col_problem) [],
       solution1 = js_or (row col_solution1) (js_or (row col_solution) []),
       solution2 = js_or (row col_solution2) [] \<rparr>"

definition post_data :: "raw_row list \<Rightarrow> FeedbackItem list" where
  "post_data rows =
     filter keep_item (map (\<lambda>(index, row). post_entry index row) (enumerate 0 rows))"

text \<open>
  Feeding an item back through the column mapping: the row whose four mapped columns hold
  the item's four fields (the mapping table of the normalizer read from right to left).
  The fallback column is not written.
\<close>

definition refeed :: "FeedbackItem \<Rightarrow> raw_row" where
  "refeed item =
     [col_category \<mapsto> category item, col_problem \<mapsto> problem item,
      col_solution1 \<mapsto> solution1 item, col_solution2 \<mapsto> solution2 item]"

section \<open>String operations of the ranking route\<close>

definition startsWith :: "jsstring \<Rightarrow> jsstring \<Rightarrow> bool" where
  "startsWith s p = (take (length p) s = p)"

text \<open>
  \<open>s.replace(/pat/g, '')\<close> for a literal, non-empty pattern: the matches are found from
  left to right, each search resuming after the previous match, and are deleted.
\<close>

fun remove_all :: "jsstring \<Rightarrow> jsstring \<Rightarrow> jsstring" where
  "remove_all pat [] = []"
| "remove_all pat (c # cs) =
     (if pat \<noteq> [] \<and> startsWith (c # cs) pat
      then remove_all pat (drop (length pat) (c # cs))
      else c # remove_all pat cs)"

text \<open>
  The code units that \<open>trim\<close> strips, ECMAScript's WhiteSpace and LineTerminator;
  \<open>rtrim\<close> strips them at the end of a string, \<open>trim\<close> at both ends.
\<close>

definition is_space :: "16 word \<Rightarrow> bool" where
  "is_space c =
     (c \<in> set [0x9, 0xA, 0xB, 0xC, 0xD, 0x20, 0xA0, 0x1680, 0x2028, 0x2029, 0x202F,
               0x205F, 0x3000, 0xFEFF]
      \<or> (0x2000 \<le> c \<and> c \<le> 0x200A))"

definition rtrim :: "jsstring \<Rightarrow> jsstring" where
  "rtrim s = rev (dropWhile is_space (rev s))"

definition trim :: "jsstring \<Rightarrow> jsstring" where
  "trim s = rtrim (dropWhile is_space s)"

text \<open>\<open>hay.includes(needle)\<close>, and \<open>parts.join(sep)\<close>.\<close>

fun includes_str :: "jsstring \<Rightarrow> jsstring \<Rightarrow> bool" where
  "includes_str [] n = (n = [])"
| "includes_str (c # cs) n = (startsWith (c # cs) n \<or> includes_str cs n)"

fun join :: "jsstring \<Rightarrow> jsstring list \<Rightarrow> jsstring" where
  "join sep [] = []"
| "join sep [x] = x"
| "join sep (x # y # ys) = x @ sep @ join sep (y # ys)"

text \<open>The decimal digits of a non-negative integer, as a template literal prints it.\<close>

fun dec :: "nat \<Rightarrow> jsstring" where
  "dec n = (if n < 10 then [of_nat (48 + n)] else dec (n div 10) @ [of_nat (48 + n mod 10)])"

declare dec.simps [simp del]

definition fence_json :: jsstring where
  "fence_json = str ''```json''"

definition fence :: jsstring where
  "fence = str ''```''"

text \<open>Lines 81 and 83 of the ranking route: the text handed to \<open>JSON.parse\<close>.\<close>

definition sanitize :: "jsstring \<Rightarrow> jsstring" where
  "sanitize responseText =
     (let cleanedText = trim (remove_all fence (remove_all fence_json responseText))
      in if startsWith cleanedText (str ''json'') then trim (drop 4 cleanedText)
         else cleanedText)"

section \<open>JSON values and \<open>JSON.parse\<close>\<close>

text \<open>
  A number is kept as its decimal literal denotes it, \<open>JNum m e\<close> standing for
  \<open>m * 10 ^ e\<close>; the rounding to a double is not modelled. The members of an object are
  kept in the order read; a later member with the same key wins on lookup.
\<close>

datatype json =
    JNull
  | JBool bool
  | JNum int int
  | JStr jsstring
  | JArr "json list"
  | JObj "(jsstring \<times> json) list"

datatype token = TLBracket | TRBracket | TLBrace | TRBrace | TComma | TColon | TAtom json

definition is_digit :: "16 word \<Rightarrow> bool" where
  "is_digit c = (0x30 \<le> c \<and> c \<le> 0x39)"

definition digits_val :: "jsstring \<Rightarrow> nat" where
  "digits_val ds = foldl (\<lambda>a c. 10 * a + (unat c - 48)) 0 ds"

definition hex_val :: "16 word \<Rightarrow> nat option" where
  "hex_val c =
     (if is_digit c then Some (unat c - 48)
      else if 0x41 \<le> c \<and> c \<le> 0x46 then Some (unat c - 55)
      else if 0x61 \<le> c \<and> c \<le> 0x66 then Some (unat c - 87)
      else None)"

text \<open>The character after a backslash, other than \<open>u\<close>.\<close>

definition escape_char :: "16 word \<Rightarrow> 16 word option" where
  "escape_char e =
     (if e = 0x22 \<or> e = 0x5C \<or> e = 0x2F then Some e
      else if e = 0x62 then Some 0x8
      else if e = 0x66 then Some 0xC
      else if e = 0x6E then Some 0xA
      else if e = 0x72 then Some 0xD
      else if e = 0x74 then Some 0x9
      else None)"

text \<open>
  The body of a string literal, read after its opening quote: the decoded string and the
  number of code units read, the closing quote included.
\<close>

fun scan_string :: "jsstring \<Rightarrow> (jsstring \<times> nat) option" where
  "scan_string [] = None"
| "scan_string (c # cs) =
     (if c = 0x22 then Some ([], 1)
      else if c = 0x5C then
        (case cs of
           [] \<Rightarrow> None
         | e # cs' \<Rightarrow>
             if e = 0x75 then
               (case those (map hex_val (take 4 cs')) of
                  Some [h1, h2, h3, h4] \<Rightarrow>
                    map_option (\<lambda>(s, n). (of_nat (h1 * 4096 + h2 * 256 + h3 * 16 + h4) # s, n + 6))
                      (scan_string (drop 4 cs'))
                | _ \<Rightarrow> None)
             else
               (case escape_char e of
                  None \<Rightarrow> None
                | Some u \<Rightarrow> map_option (\<lambda>(s, n). (u # s, n + 2)) (scan_string cs')))
      else if c < 0x20 then None
      else map_option (\<lambda>(s, n). (c # s, n + 1)) (scan_string cs))"

definition starts :: "16 word set \<Rightarrow> jsstring \<Rightarrow> bool" where
  "starts C s = (case s of [] \<Rightarrow> False | c # _ \<Rightarrow> c \<in> C)"

text \<open>
  A number literal at the head of the text: mantissa, decimal exponent and the number of
  code units read. The grammar is
  \<open>-? (0 | [1-9][0-9]*) (. [0-9]+)? ([eE] [+-]? [0-9]+)?\<close>.
\<close>

definition scan_number :: "jsstring \<Rightarrow> (int \<times> int \<times> nat) option" where
  "scan_number s =
     (let neg = starts {0x2D} s;
          s1 = (if neg then tl s else s);
          ip = (if starts {0x30} s1 then [0x30] else takeWhile is_digit s1);
          s2 = drop (length ip) s1;
          has_frac = starts {0x2E} s2;
          fp = (if has_frac then takeWhile is_digit (tl s2) else []);
          s3 = (if has_frac then drop (length fp) (tl s2) else s2);
          has_exp = starts {0x65, 0x45} s3;
          s4 = (if has_exp then tl s3 else s3);
          eneg = (has_exp \<and> starts {0x2D} s4);
          s5 = (if has_exp \<and> starts {0x2B, 0x2D} s4 then tl s4 else s4);
          ep = (if has_exp then takeWhile is_digit s5 else []);
          s6 = drop (length ep) s5
      in if ip = [] \<or> (has_frac \<and> fp = []) \<or> (has_exp \<and> ep = []) then None
         else Some ((if neg then - int (digits_val (ip @ fp)) else int (digits_val (ip @ fp))),
                    (if eneg then - int (digits_val ep) else int (digits_val ep)) - int (length fp),
                    length s - length s6))"

definition json_ws :: "16 word \<Rightarrow> bool" where
  "json_ws c = (c = 0x20 \<or> c = 0x9 \<or> c = 0xA \<or> c = 0xD)"

fun lex :: "jsstring \<Rightarrow> token list option" where
  "lex [] = Some []"
| "lex (c # cs) =
     (if json_ws c then lex cs
      else if c = 0x5B then map_option (Cons TLBracket) (lex cs)
      else if c = 0x5D then map_option (Cons TRBracket) (lex cs)
      else if c = 0x7B then map_option (Cons TLBrace) (lex cs)
      else if c = 0x7D then map_option (Cons TRBrace) (lex cs)
      else if c = 0x2C then map_option (Cons TComma) (lex cs)
      else if c = 0x3A then map_option (Cons TColon) (lex cs)
      else if c = 0x22 then
        (case scan_string cs of
           None \<Rightarrow> None
         | Some (s, n) \<Rightarrow> map_option (Cons (TAtom (JStr s))) (lex (drop n cs)))
      else if c = 0x2D \<or> is_digit c then
        (case scan_number (c # cs) of
           None \<Rightarrow> None
         | Some (m, e, n) \<Rightarrow> map_option (Cons (TAtom (JNum m e))) (lex (drop (n - 1) cs)))
      else if startsWith (c # cs) (str ''true'') then
        map_option (Cons (TAtom (JBool True))) (lex (drop 3 cs))
      else if startsWith (c # cs) (str ''false'') then
        map_option (Cons (TAtom (JBool False))) (lex (drop 4 cs))
      else if startsWith (c # cs) (str ''null'') then
        map_option (Cons (TAtom JNull)) (lex (drop 3 cs))
      else None)"

text \<open>
  The grammar of values over the tokens, as a pushdown automaton: the stack holds the
  arrays and objects that are open, innermost first.
\<close>

datatype frame = InArr "json list" | InObj "(jsstring \<times> json) list" "jsstring option"

datatype pstate =
    ExpectValue | ExpectValueOrEnd | ExpectKeyOrEnd | ExpectKey | ExpectColon
  | AfterValue | Finished json

fun deliver :: "json \<Rightarrow> frame list \<Rightarrow> (frame list \<times> pstate) option" where
  "deliver v [] = Some ([], Finished v)"
| "deliver v (InArr es # st) = Some (InArr (es @ [v]) # st, AfterValue)"
| "deliver v (InObj ms (Some k) # st) = Some (InObj (ms @ [(k, v)]) None # st, AfterValue)"
| "deliver v (InObj ms None # st) = None"

fun open_value :: "frame list \<Rightarrow> token \<Rightarrow> (frame list \<times> pstate) option" where
  "open_value st (TAtom v) = deliver v st"
| "open_value st TLBracket = Some (InArr [] # st, ExpectValueOrEnd)"
| "open_value st TLBrace = Some (InObj [] None # st, ExpectKeyOrEnd)"
| "open_value st _ = None"

fun read_key :: "frame list \<Rightarrow> token \<Rightarrow> (frame list \<times> pstate) option" where
  "read_key (InObj ms _ # st) (TAtom (JStr k)) = Some (InObj ms (Some k) # st, ExpectColon)"
| "read_key _ _ = None"

fun close_frame :: "frame list \<Rightarrow> token \<Rightarrow> (frame list \<times> pstate) option" where
  "close_frame (InArr es # st) TRBracket = deliver (JArr es) st"
| "close_frame (InObj ms None # st) TRBrace = deliver (JObj ms) st"
| "close_frame _ _ = None"

fun pstep :: "frame list \<Rightarrow> pstate \<Rightarrow> token \<Rightarrow> (frame list \<times> pstate) option" where
  "pstep st ExpectValue t = open_value st t"
| "pstep st ExpectValueOrEnd t = (if t = TRBracket then close_frame st t else open_value st t)"
| "pstep st ExpectKeyOrEnd t = (if t = TRBrace then close_frame st t else read_key st t)"
| "pstep st ExpectKey t = read_key st t"
| "pstep st ExpectColon t = (if t = TColon then Some (st, ExpectValue) else None)"
| "pstep st AfterValue t =
     (if t = TComma then
        (case st of
           InArr _ # _ \<Rightarrow> Some (st, ExpectValue)
         | InObj _ _ # _ \<Rightarrow> Some (st, ExpectKey)
         | [] \<Rightarrow> None)
      else close_frame st t)"
| "pstep st (Finished v) t = None"

fun run :: "frame list \<Rightarrow> pstate \<Rightarrow> token list \<Rightarrow> json option" where
  "run st ps [] = (case ps of Finished v \<Rightarrow> Some v | _ \<Rightarrow> None)"
| "run st ps (t # ts) =
     (case pstep st ps t of None \<Rightarrow> None | Some (st', ps') \<Rightarrow> run st' ps' ts)"

text \<open>\<open>JSON.parse(text)\<close>; \<open>None\<close> is the SyntaxError.\<close>

definition JSON_parse :: "jsstring \<Rightarrow> json option" where
  "JSON_parse text = (case lex text of None \<Rightarrow> None | Some ts \<Rightarrow> run [] ExpectValue ts)"

section \<open>The routes\<close>

text \<open>
  What a handler throws and the outer \<open>catch\<close> reports as \<open>details\<close>: an \<open>Error\<close>
  made by the route itself, a TypeError of the engine, or a rejection of a library call.
\<close>

datatype thrown = Error_msg jsstring | TypeError | External

datatype body = Items "FeedbackItem list" | Failure jsstring "thrown option"

record response =
  status :: nat
  body :: body

text \<open>
  The sheet as a route sees it: \<open>fetch\<close>, \<open>response.text()\<close> and \<open>Papa.parse\<close>
  either fail, or give the \<open>ok\<close> flag of the response and the parsed rows.
\<close>

datatype sheet = FetchFailed | Fetched bool "raw_row list"

subsection \<open>\<open>GET\<close> of \<open>src/app/api/feedback/route.ts\<close>\<close>

definition GET :: "sheet \<Rightarrow> response" where
  "GET sh =
     (case sh of
        FetchFailed \<Rightarrow> \<lparr>status = 500, body = Failure (str ''Failed to fetch data'') None\<rparr>
      | Fetched ok rows \<Rightarrow> \<lparr>status = 200, body = Items (get_data rows)\<rparr>)"

subsection \<open>\<open>POST\<close> of \<open>src/unnamed/part_000\<close>\<close>

text \<open>
  The integer a JSON number denotes, if it denotes one. \<open>item.id === id\<close> compares the
  row index \<open>item.id\<close> with an element of the parsed answer: it holds when the element
  is a number of the same value, and never for an item without \<open>id\<close>.
\<close>

fun json_int :: "json \<Rightarrow> int option" where
  "json_int (JNum m e) =
     (if 0 \<le> e then Some (m * 10 ^ nat e)
      else if m mod 10 ^ nat (- e) = 0 then Some (m div 10 ^ nat (- e))
      else None)"
| "json_int _ = None"

definition strict_eq_id :: "nat option \<Rightarrow> json \<Rightarrow> bool" where
  "strict_eq_id i v = (case i of None \<Rightarrow> False | Some n \<Rightarrow> json_int v = Some (int n))"

text \<open>
  Lines 97 to 99:
  \<open>sortedIds.map(id => data.find(item => item.id === id)).filter(Boolean)\<close>.
\<close>

definition sortedData :: "FeedbackItem list \<Rightarrow> json list \<Rightarrow> FeedbackItem list" where
  "sortedData data sortedIds =
     map the (filter (\<lambda>found. found \<noteq> None)
       (map (\<lambda>id. find (\<lambda>item. strict_eq_id (item_id item) id) data) sortedIds))"

text \<open>Line 51 and the template literal of lines 53 to 65.\<close>

definition show_id :: "nat option \<Rightarrow> jsstring" where
  "show_id i = (case i of None \<Rightarrow> str ''undefined'' | Some n \<Rightarrow> dec n)"

definition problemsList :: "FeedbackItem list \<Rightarrow> jsstring" where
  "problemsList data =
     join [0xA] (map (\<lambda>item. str ''ID: '' @ show_id (item_id item) @ str '', Problem: '' @ problem item) data)"

definition indent :: jsstring where
  "indent = replicate 8 0x20"

definition prompt :: "jsstring \<Rightarrow> jsstring \<Rightarrow> jsstring" where
  "prompt query plist =
     [0xA] @ indent @ str ''You are a helpful assistant for a feedback encyclopedia.'' @
     [0xA] @ indent @ str ''The user has provided a problem description or a draft text: '' @
       [0x22] @ query @ [0x22] @
     [0xA] @ indent @
     [0xA] @ indent @ str ''Here is a list of known problem categories and descriptions:'' @
     [0xA] @ indent @ plist @
     [0xA] @
     [0xA] @ indent @ str ''Task: Identify the top 5 most relevant problems from the list that match the user'' @
       [0x27] @ str ''s input.'' @
     [0xA] @ indent @ str ''If the input is a draft text, find the problems that this text likely suffers from.'' @
     [0xA] @ indent @ str ''Return ONLY a JSON array of the top 5 relevant IDs, sorted by relevance.'' @
     [0xA] @ indent @ str ''Example output: [12, 4, 0, 15, 8]'' @
     [0xA] @ indent @ str ''DO NOT include any explanation, markdown formatting, or code blocks. Just the JSON array.'' @
     [0xA] @ indent"

text \<open>
  The environment of one request: the credential \<open>process.env.GEMINI_API_KEY\<close>, the sheet,
  and the ranking service, which answers a prompt with a text or fails (\<open>None\<close>: the call
  or \<open>response.text()\<close> throws).
\<close>

record env =
  api_key :: "jsstring option"
  sheet :: sheet
  gemini :: "jsstring \<Rightarrow> jsstring option"

text \<open>
  What a request did: its response, whether the sheet was fetched, and the prompts sent to
  the ranking service, in order.
\<close>

record post_result =
  response :: response
  fetched :: bool
  prompts :: "jsstring list"

text \<open>\<open>process.env.GEMINI_API_KEY\<close> is truthy: set, and not the empty string.\<close>

definition configured :: "env \<Rightarrow> bool" where
  "configured ev = (case api_key ev of None \<Rightarrow> False | Some k \<Rightarrow> truthy k)"

definition server_error :: "thrown \<Rightarrow> response" where
  "server_error t = \<lparr>status = 500, body = Failure (str ''Internal Server Error'') (Some t)\<rparr>"

text \<open>
  \<open>const { query } = body\<close>: destructuring \<open>null\<close> throws (\<open>None\<close>); a property that is
  not there reads as \<open>undefined\<close> (\<open>Some None\<close>).
\<close>

fun destructure_query :: "json \<Rightarrow> json option option" where
  "destructure_query JNull = None"
| "destructure_query (JObj ms) = Some (map_of (rev ms) (str ''query''))"
| "destructure_query _ = Some None"

text \<open>
  \<open>query?.substring(0, 50)\<close> inside the log line: skipped for \<open>undefined\<close> and
  \<open>null\<close>, evaluated for a string, and a TypeError for every other value, which has no
  callable \<open>substring\<close>.
\<close>

fun substring_throws :: "json option \<Rightarrow> bool" where
  "substring_throws None = False"
| "substring_throws (Some JNull) = False"
| "substring_throws (Some (JStr s)) = False"
| "substring_throws (Some _) = True"

text \<open>\<open>!query\<close> for the values that reach line 19.\<close>

fun query_text :: "json option \<Rightarrow> jsstring option" where
  "query_text (Some (JStr s)) = (if truthy s then Some s else None)"
| "query_text _ = None"

definition POST :: "env \<Rightarrow> json option \<Rightarrow> post_result" where
  "POST ev request_json =
     (case request_json of
        None \<Rightarrow> \<lparr>response = server_error External, fetched = False, prompts = []\<rparr>
      | Some b \<Rightarrow>
     (case destructure_query b of
        None \<Rightarrow> \<lparr>response = server_error TypeError, fetched = False, prompts = []\<rparr>
      | Some q \<Rightarrow>
     if substring_throws q then
       \<lparr>response = server_error TypeError, fetched = False, prompts = []\<rparr>
     else
     (case query_text q of
        None \<Rightarrow>
          \<lparr>response = \<lparr>status = 400, body = Failure (str ''Query is required'') None\<rparr>,
            fetched = False, prompts = []\<rparr>
      | Some query \<Rightarrow>
     if \<not> configured ev then
       \<lparr>response = \<lparr>status = 503, body = Failure (str ''API Key missing on server'') None\<rparr>,
         fetched = False, prompts = []\<rparr>
     else
     (case sheet ev of
        FetchFailed \<Rightarrow> \<lparr>response = server_error External, fetched = True, prompts = []\<rparr>
      | Fetched ok rows \<Rightarrow>
     if \<not> ok then
       \<lparr>response = server_error (Error_msg (str ''Failed to fetch data source'')),
         fetched = True, prompts = []\<rparr>
     else
     (let data = post_data rows;
          p = prompt query (problemsList data)
      in
     (case gemini ev p of
        None \<Rightarrow> \<lparr>response = server_error External, fetched = True, prompts = [p]\<rparr>
      | Some responseText \<Rightarrow>
     (case JSON_parse (sanitize responseText) of
        None \<Rightarrow>
          \<lparr>response = server_error (Error_msg (str ''Failed to parse AI response'')),
            fetched = True, prompts = [p]\<rparr>
      | Some (JArr sortedIds) \<Rightarrow>
          \<lparr>response = \<lparr>status = 200, body = Items (sortedData data sortedIds)\<rparr>,
            fetched = True, prompts = [p]\<rparr>
      | Some _ \<Rightarrow> \<lparr>response = server_error TypeError, fetched = True, prompts = [p]\<rparr>)))))))"

section \<open>The page: \<open>src/app/page.tsx\<close>\<close>

datatype alert = KeyMissingAlert | SearchFailedAlert

text \<open>
  The state of the component that the retrieval depends on. \<open>pending\<close> and \<open>alerts\<close> are
  not React state: \<open>pending\<close> lists the queries of the ranking requests that were sent and
  are not answered yet, \<open>alerts\<close> the alerts shown. The expand, copy and version states of
  the cards are left out; no function below reads them.
\<close>

record ui_state =
  data :: "FeedbackItem list"
  loading :: bool
  searchQuery :: jsstring
  selectedCategory :: jsstring
  aiAnalysisResults :: "FeedbackItem list option"
  isAiSearching :: bool
  pending :: "jsstring list"
  alerts :: "alert list"

definition initial_state :: ui_state where
  "initial_state =
     \<lparr> data = [], loading = True, searchQuery = [], selectedCategory = str ''All'',
       aiAnalysisResults = None, isAiSearching = False, pending = [], alerts = [] \<rparr>"

text \<open>
  Lines 48 to 65. An array, empty or not, is truthy, so the first branch is taken whenever
  a result is held. \<open>lower\<close> stands for \<open>String.prototype.toLowerCase\<close>.
\<close>

definition filteredData :: "(jsstring \<Rightarrow> jsstring) \<Rightarrow> ui_state \<Rightarrow> FeedbackItem list" where
  "filteredData lower s =
     (case aiAnalysisResults s of
        Some results \<Rightarrow> results
      | None \<Rightarrow>
          filter (\<lambda>item.
            let matchesCategory =
                  (selectedCategory s = str ''All'' \<or> category item = selectedCategory s);
                matchesSearch =
                  (includes_str (lower (problem item)) (lower (searchQuery s)) \<or>
                   includes_str (lower (solution1 item)) (lower (searchQuery s)) \<or>
                   (truthy (solution2 item) \<and>
                    includes_str (lower (solution2 item)) (lower (searchQuery s))) \<or>
                   includes_str (lower (category item)) (lower (searchQuery s)))
            in matchesCategory \<and> matchesSearch) (data s))"

text \<open>
  \<open>handleAiSearch\<close> up to its \<open>await fetch\<close> (lines 86 to 96), and its continuation when
  the answer arrives (lines 98 to 116).
\<close>

definition handleAiSearch :: "ui_state \<Rightarrow> ui_state" where
  "handleAiSearch s =
     (if \<not> truthy (trim (searchQuery s)) then s
      else s\<lparr> isAiSearching := True, aiAnalysisResults := None,
              pending := pending s @ [searchQuery s] \<rparr>)"

text \<open>
  The answer to a ranking request as the page reads it: the fetch fails; or the response is
  \<open>ok\<close> and carries the ranked items; or it is not \<open>ok\<close> and has a status.
\<close>

datatype reply = NetworkError | Results "FeedbackItem list" | Refused nat

definition handleAiSearch_resume :: "ui_state \<Rightarrow> reply \<Rightarrow> ui_state" where
  "handleAiSearch_resume s r =
     (case r of
        NetworkError \<Rightarrow> s\<lparr> alerts := alerts s @ [SearchFailedAlert], isAiSearching := False \<rparr>
      | Refused st \<Rightarrow>
          if st = 503 then s\<lparr> alerts := alerts s @ [KeyMissingAlert], isAiSearching := False \<rparr>
          else s\<lparr> alerts := alerts s @ [SearchFailedAlert], isAiSearching := False \<rparr>
      | Results results \<Rightarrow>
          s\<lparr> aiAnalysisResults := Some results, selectedCategory := str ''All'',
             isAiSearching := False \<rparr>)"

text \<open>
  What the user and the network can do. The page renders the search box, the buttons and
  the categories only when \<open>loading\<close> is false; the search button is \<open>disabled\<close> while
  \<open>isAiSearching\<close>, so a click on it then calls nothing; the clear button is rendered only
  while a result is held. \<open>Answer r\<close> answers the oldest pending request.
\<close>

datatype event =
    DataLoaded "FeedbackItem list option"
  | ClickCategory jsstring
  | ChangeText jsstring
  | PressEnter
  | ClickSearch
  | ClickClear
  | Answer reply

fun ui_step :: "ui_state \<Rightarrow> event \<Rightarrow> ui_state" where
  "ui_step s (DataLoaded d) =
     (case d of None \<Rightarrow> s\<lparr> loading := False \<rparr>
      | Some items \<Rightarrow> s\<lparr> data := items, loading := False \<rparr>)"
| "ui_step s (ClickCategory c) =
     (if loading s then s else s\<lparr> selectedCategory := c, aiAnalysisResults := None \<rparr>)"
| "ui_step s (ChangeText v) =
     (if loading s then s
      else if v = [] then s\<lparr> searchQuery := v, aiAnalysisResults := None \<rparr>
      else s\<lparr> searchQuery := v \<rparr>)"
| "ui_step s PressEnter = (if loading s then s else handleAiSearch s)"
| "ui_step s ClickSearch = (if loading s \<or> isAiSearching s then s else handleAiSearch s)"
| "ui_step s ClickClear =
     (if loading s \<or> aiAnalysisResults s = None then s
      else s\<lparr> aiAnalysisResults := None, searchQuery := [] \<rparr>)"
| "ui_step s (Answer r) =
     (case pending s of [] \<Rightarrow> s
      | q # qs \<Rightarrow> handleAiSearch_resume (s\<lparr> pending := qs \<rparr>) r)"

section \<open>Inputs used in the examples\<close>

text \<open>A ranking service that answers every prompt with the same text.\<close>

definition constant_service :: "jsstring \<Rightarrow> jsstring \<Rightarrow> jsstring option" where
  "constant_service answer p = Some answer"


text \<open>
  The answer \<open>[3,1,2]\<close> inside a fence with a language tag, each part on its own line.
\<close>

definition fenced_answer :: jsstring where
  "fenced_answer = str ''```json'' @ [0xA] @ str ''[3,1,2]'' @ [0xA] @ str ''```''"

text \<open>The request body \<open>{ "query": q }\<close>, parsed.\<close>

definition query_request :: "jsstring \<Rightarrow> json option" where
  "query_request q = Some (JObj [(str ''query'', JStr q)])"

text \<open>A raw row with a problem and a first solution, and the item the page holds for it.\<close>

definition sample_row :: "jsstring \<Rightarrow> raw_row" where
  "sample_row p = [col_problem \<mapsto> p, col_solution1 \<mapsto> str ''s'']"

definition four_rows :: "raw_row list" where
  "four_rows = [sample_row (str ''a''), sample_row (str ''b''), sample_row (str ''c''),
                sample_row (str ''d'')]"

definition sample_item :: "jsstring \<Rightarrow> FeedbackItem" where
  "sample_item c =
     \<lparr>item_id = None, category = c, problem = str ''p'', solution1 = str ''s'', solution2 = []\<rparr>"

text \<open>The page after the listing has arrived with one item of the category Programming.\<close>

definition loaded_state :: ui_state where
  "loaded_state = ui_step initial_state (DataLoaded (Some [sample_item (str ''Programming'')]))"

section \<open>Properties of the normalization\<close>

lemma post_data_index:
  "post_data rows =
     map (\<lambda>i. post_entry i (rows ! i))
       (filter (\<lambda>i. keep_item (post_entry i (rows ! i))) [0..<length rows])"
proof -
  have "map (\<lambda>(index, row). post_entry index row) (enumerate 0 rows) =
        map (\<lambda>i. post_entry i (rows ! i)) [0..<length rows]"
    by (rule nth_equalityI) (simp_all add: nth_enumerate_eq)
  then show ?thesis
    by (simp add: post_data_def filter_map comp_def)
qed

lemma keep_post_entry: "keep_item (post_entry i r) = keep_item (get_entry r)"
  by (simp add: keep_item_def post_entry_def get_entry_def)

lemma category_get_entry: "truthy (category (get_entry r))"
  by (simp add: get_entry_def js_or_def default_category_def truthy_def split: option.splits)

lemma category_post_entry: "truthy (category (post_entry i r))"
  by (simp add: post_entry_def js_or_def default_category_def truthy_def split: option.splits)

lemma refeed_cells:
  "refeed e col_category = Some (category e)"
  "refeed e col_problem = Some (problem e)"
  "refeed e col_solution1 = Some (solution1 e)"
  "refeed e col_solution2 = Some (solution2 e)"
  "refeed e col_solution = None"
  by (simp_all add: refeed_def col_category_def col_problem_def col_solution1_def
      col_solution2_def col_solution_def)

lemma get_entry_refeed:
  assumes "truthy (category e)"
  shows "get_entry (refeed e) = e\<lparr>item_id := None\<rparr>"
  using assms by (cases e) (simp add: get_entry_def refeed_cells js_or_def truthy_def)

lemma post_entry_refeed:
  assumes "truthy (category e)"
  shows "post_entry i (refeed e) = e\<lparr>item_id := Some i\<rparr>"
  using assms by (cases e) (simp add: post_entry_def refeed_cells js_or_def truthy_def)

text \<open>
  C4. On the listing path and on the ranking path alike, every item of the normalized
  corpus has a non-empty problem and a non-empty first or second solution, and the
  normalized corpus is exactly the items of the rows that pass this test, in row order:
  a row that fails it is left out, and no error is raised for it.
\<close>

theorem normalized_items_valid:
  "(\<forall>e \<in> set (get_data rows). problem e \<noteq> [] \<and> (solution1 e \<noteq> [] \<or> solution2 e \<noteq> []))
   \<and> (\<forall>e \<in> set (post_data rows). problem e \<noteq> [] \<and> (solution1 e \<noteq> [] \<or> solution2 e \<noteq> []))
   \<and> (\<forall>i < length rows.
        (get_entry (rows ! i) \<in> set (get_data rows)) =
          (problem (get_entry (rows ! i)) \<noteq> [] \<and>
           (solution1 (get_entry (rows ! i)) \<noteq> [] \<or> solution2 (get_entry (rows ! i)) \<noteq> [])))
   \<and> (\<forall>i < length rows.
        (post_entry i (rows ! i) \<in> set (post_data rows)) =
          (problem (post_entry i (rows ! i)) \<noteq> [] \<and>
           (solution1 (post_entry i (rows ! i)) \<noteq> [] \<or> solution2 (post_entry i (rows ! i)) \<noteq> [])))"
proof (intro conjI allI impI ballI)
  fix e assume "e \<in> set (get_data rows)"
  then have "keep_item e" by (simp add: get_data_def)
  then show "problem e \<noteq> []" and "solution1 e \<noteq> [] \<or> solution2 e \<noteq> []"
    by (simp_all add: keep_item_def truthy_def)
next
  fix e assume "e \<in> set (post_data rows)"
  then have "keep_item e" by (simp add: post_data_def)
  then show "problem e \<noteq> []" and "solution1 e \<noteq> [] \<or> solution2 e \<noteq> []"
    by (simp_all add: keep_item_def truthy_def)
next
  fix i assume "i < length rows"
  then have "get_entry (rows ! i) \<in> set (map get_entry rows)" by simp
  then show "(get_entry (rows ! i) \<in> set (get_data rows)) =
          (problem (get_entry (rows ! i)) \<noteq> [] \<and>
           (solution1 (get_entry (rows ! i)) \<noteq> [] \<or> solution2 (get_entry (rows ! i)) \<noteq> []))"
    unfolding get_data_def by (simp add: keep_item_def truthy_def del: set_map)
next
  fix i assume i: "i < length rows"
  have "post_entry i (rows ! i) \<in> set (post_data rows) \<longleftrightarrow>
        keep_item (post_entry i (rows ! i)) \<and>
        (\<exists>j < length rows. post_entry j (rows ! j) = post_entry i (rows ! i))"
    by (auto simp: post_data_index image_iff)
  also have "\<dots> \<longleftrightarrow> keep_item (post_entry i (rows ! i))"
    using i by auto
  finally show "(post_entry i (rows ! i) \<in> set (post_data rows)) =
          (problem (post_entry i (rows ! i)) \<noteq> [] \<and>
           (solution1 (post_entry i (rows ! i)) \<noteq> [] \<or> solution2 (post_entry i (rows ! i)) \<noteq> []))"
    by (simp add: keep_item_def truthy_def)
qed

theorem normalized_items_valid_witness:
  "get_entry [col_problem \<mapsto> str ''p'', col_solution1 \<mapsto> str ''s'']
     \<in> set (get_data [[col_category \<mapsto> str ''A'', col_problem \<mapsto> [], col_solution1 \<mapsto> str ''x''],
                       [col_problem \<mapsto> str ''p'', col_solution1 \<mapsto> str ''s'']])
   \<and> get_entry [col_category \<mapsto> str ''A'', col_problem \<mapsto> [], col_solution1 \<mapsto> str ''x'']
     \<notin> set (get_data [[col_category \<mapsto> str ''A'', col_problem \<mapsto> [], col_solution1 \<mapsto> str ''x''],
                       [col_problem \<mapsto> str ''p'', col_solution1 \<mapsto> str ''s'']])
   \<and> post_entry 1 [col_problem \<mapsto> str ''p'', col_solution1 \<mapsto> str ''s'']
     \<in> set (post_data [[col_category \<mapsto> str ''A'', col_problem \<mapsto> [], col_solution1 \<mapsto> str ''x''],
                        [col_problem \<mapsto> str ''p'', col_solution1 \<mapsto> str ''s'']])
   \<and> post_entry 0 [col_category \<mapsto> str ''A'', col_problem \<mapsto> [], col_solution1 \<mapsto> str ''x'']
     \<notin> set (post_data [[col_category \<mapsto> str ''A'', col_problem \<mapsto> [], col_solution1 \<mapsto> str ''x''],
                        [col_problem \<mapsto> str ''p'', col_solution1 \<mapsto> str ''s'']])"
  using normalized_items_valid
    [of "[[col_category \<mapsto> str ''A'', col_problem \<mapsto> [], col_solution1 \<mapsto> str ''x''],
          [col_problem \<mapsto> str ''p'', col_solution1 \<mapsto> str ''s'']]"]
  by (simp add: All_less_Suc get_entry_def post_entry_def js_or_def truthy_def str_def
      col_category_def col_problem_def col_solution1_def col_solution2_def col_solution_def)

text \<open>
  C5, as the code has it. On the ranking path the ids of the normalized corpus are the
  indices, in the raw sequence and counted from 0, of the rows that were kept, in row
  order: they are pairwise different, every item is the one built from the row at its id,
  and the ids are not renumbered after the filter. The listing path builds items without
  an id.
\<close>

theorem post_ids_are_raw_indices:
  "map item_id (post_data rows) =
     map Some (filter (\<lambda>i. keep_item (post_entry i (rows ! i))) [0..<length rows])
   \<and> distinct (map item_id (post_data rows))
   \<and> (\<forall>e \<in> set (post_data rows). \<exists>i < length rows. item_id e = Some i \<and> e = post_entry i (rows ! i))
   \<and> (\<forall>e \<in> set (get_data rows). item_id e = None)"
proof (intro conjI ballI)
  show ids: "map item_id (post_data rows) =
     map Some (filter (\<lambda>i. keep_item (post_entry i (rows ! i))) [0..<length rows])"
    by (simp add: post_data_index comp_def post_entry_def)
  show "distinct (map item_id (post_data rows))"
    unfolding ids by (simp add: distinct_map)
next
  fix e assume "e \<in> set (post_data rows)"
  then obtain i where "i < length rows" and "e = post_entry i (rows ! i)"
    by (auto simp: post_data_index)
  then show "\<exists>i < length rows. item_id e = Some i \<and> e = post_entry i (rows ! i)"
    by (auto simp: post_entry_def)
next
  fix e assume "e \<in> set (get_data rows)"
  then show "item_id e = None"
    by (auto simp: get_data_def get_entry_def)
qed

theorem post_ids_are_raw_indices_witness:
  "map item_id (post_data [[col_problem \<mapsto> []], [col_problem \<mapsto> str ''p'', col_solution \<mapsto> str ''s'']])
     = [Some 1]
   \<and> post_data [[col_problem \<mapsto> []], [col_problem \<mapsto> str ''p'', col_solution \<mapsto> str ''s'']]
     = [post_entry 1 [col_problem \<mapsto> str ''p'', col_solution \<mapsto> str ''s'']]
   \<and> map item_id (get_data [[col_problem \<mapsto> []], [col_problem \<mapsto> str ''p'', col_solution \<mapsto> str ''s'']])
     = [None]"
  using post_ids_are_raw_indices
    [of "[[col_problem \<mapsto> []], [col_problem \<mapsto> str ''p'', col_solution \<mapsto> str ''s'']]"]
  by (simp add: post_data_def get_data_def keep_item_def get_entry_def post_entry_def js_or_def
      truthy_def str_def col_category_def col_problem_def col_solution1_def col_solution2_def
      col_solution_def enumerate_eq_zip upt_rec)

text \<open>
  C5 as stated fails on the listing path: the one item that \<open>GET\<close> returns for a
  one-row sheet has no id, where the claim gives it the id 0.
\<close>

theorem get_item_has_no_id:
  "map item_id (get_data [[col_problem \<mapsto> str ''p'', col_solution1 \<mapsto> str ''s'']]) = [None]
   \<and> map item_id (get_data [[col_problem \<mapsto> str ''p'', col_solution1 \<mapsto> str ''s'']]) \<noteq> [Some 0]
   \<and> body (GET (Fetched True [[col_problem \<mapsto> str ''p'', col_solution1 \<mapsto> str ''s'']])) =
       Items [\<lparr>item_id = None, category = default_category, problem = str ''p'',
               solution1 = str ''s'', solution2 = []\<rparr>]"
  by (simp add: GET_def get_data_def keep_item_def get_entry_def js_or_def
      truthy_def str_def col_category_def col_problem_def col_solution1_def col_solution2_def
      col_solution_def)

text \<open>
  C6. Normalizing, writing the items back into the four mapped columns and normalizing
  again gives the first result. On the listing path this holds for every raw row
  sequence. On the ranking path, where the id is the row index, it holds when no row of
  the input is dropped.
\<close>

theorem normalization_idempotent:
  "get_data (map refeed (get_data rows)) = get_data rows
   \<and> ((\<forall>r \<in> set rows. keep_item (get_entry r)) \<longrightarrow>
        post_data (map refeed (post_data rows)) = post_data rows)"
proof (intro conjI impI)
  have "map get_entry (map refeed (get_data rows)) = get_data rows"
  proof -
    have "\<And>e. e \<in> set (get_data rows) \<Longrightarrow> get_entry (refeed e) = e"
    proof -
      fix e assume "e \<in> set (get_data rows)"
      then obtain r where e: "e = get_entry r" by (auto simp: get_data_def)
      have "get_entry (refeed e) = e\<lparr>item_id := None\<rparr>"
        unfolding e by (rule get_entry_refeed) (rule category_get_entry)
      then show "get_entry (refeed e) = e" by (simp add: e get_entry_def)
    qed
    then show ?thesis by (simp add: map_idI)
  qed
  then have "filter keep_item (map get_entry (map refeed (get_data rows))) =
             filter keep_item (get_data rows)"
    by (rule arg_cong)
  then show "get_data (map refeed (get_data rows)) = get_data rows"
    by (simp add: get_data_def)
next
  assume all: "\<forall>r \<in> set rows. keep_item (get_entry r)"
  let ?xs = "post_data rows"
  have xs: "?xs = map (\<lambda>i. post_entry i (rows ! i)) [0..<length rows]"
    using all by (simp add: post_data_index keep_post_entry)
  have len: "length ?xs = length rows" by (simp add: xs)
  have rt: "post_entry i (refeed (?xs ! i)) = ?xs ! i \<and> keep_item (?xs ! i)"
    if "i < length rows" for i
  proof -
    have nth: "?xs ! i = post_entry i (rows ! i)" using that by (simp add: xs)
    have "post_entry i (refeed (?xs ! i)) = (?xs ! i)\<lparr>item_id := Some i\<rparr>"
      unfolding nth by (rule post_entry_refeed) (rule category_post_entry)
    moreover have "(?xs ! i)\<lparr>item_id := Some i\<rparr> = ?xs ! i"
      by (simp add: nth post_entry_def)
    moreover have "keep_item (?xs ! i)"
      using all that by (simp add: nth keep_post_entry)
    ultimately show ?thesis using that len by simp
  qed
  have "post_data (map refeed ?xs) =
        map (\<lambda>i. post_entry i (map refeed ?xs ! i))
          (filter (\<lambda>i. keep_item (post_entry i (map refeed ?xs ! i))) [0..<length rows])"
    by (simp add: post_data_index [of "map refeed ?xs"] len)
  also have "filter (\<lambda>i. keep_item (post_entry i (map refeed ?xs ! i))) [0..<length rows] =
             [0..<length rows]"
    using rt by (simp add: filter_id_conv len)
  also have "map (\<lambda>i. post_entry i (map refeed ?xs ! i)) [0..<length rows] = ?xs"
    by (rule nth_equalityI) (simp_all add: len rt)
  finally show "post_data (map refeed ?xs) = ?xs" .
qed

theorem normalization_idempotent_witness:
  "keep_item (get_entry [col_problem \<mapsto> str ''p'', col_solution \<mapsto> str ''s''])
   \<and> get_data (map refeed (get_data [[col_problem \<mapsto> str ''p'', col_solution \<mapsto> str ''s'']]))
       = get_data [[col_problem \<mapsto> str ''p'', col_solution \<mapsto> str ''s'']]
   \<and> post_data (map refeed (post_data [[col_problem \<mapsto> str ''p'', col_solution \<mapsto> str ''s'']]))
       = post_data [[col_problem \<mapsto> str ''p'', col_solution \<mapsto> str ''s'']]
   \<and> post_data [[col_problem \<mapsto> str ''p'', col_solution \<mapsto> str ''s'']] =
       [\<lparr>item_id = Some 0, category = default_category, problem = str ''p'',
         solution1 = str ''s'', solution2 = []\<rparr>]"
proof -
  have h: "\<forall>r \<in> set [[col_problem \<mapsto> str ''p'', col_solution \<mapsto> str ''s'']]. keep_item (get_entry r)"
    by (simp add: keep_item_def get_entry_def js_or_def truthy_def str_def col_category_def
        col_problem_def col_solution1_def col_solution2_def col_solution_def)
  have d: "post_data [[col_problem \<mapsto> str ''p'', col_solution \<mapsto> str ''s'']] =
       [\<lparr>item_id = Some 0, category = default_category, problem = str ''p'',
         solution1 = str ''s'', solution2 = []\<rparr>]"
    by (simp add: post_data_def keep_item_def post_entry_def js_or_def truthy_def str_def
        col_category_def col_problem_def col_solution1_def col_solution2_def col_solution_def)
  show ?thesis
    using h d normalization_idempotent [of "[[col_problem \<mapsto> str ''p'', col_solution \<mapsto> str ''s'']]"]
    by simp
qed

text \<open>
  When a row is dropped, the second pass on the ranking path numbers the items anew: the
  item that had the id 1 comes back with the id 0.
\<close>

lemma post_refeed_renumbers:
  "map item_id (post_data [[col_problem \<mapsto> []], [col_problem \<mapsto> str ''p'', col_solution \<mapsto> str ''s'']])
     = [Some 1]
   \<and> map item_id (post_data (map refeed
        (post_data [[col_problem \<mapsto> []], [col_problem \<mapsto> str ''p'', col_solution \<mapsto> str ''s'']])))
     = [Some 0]"
  by (simp add: post_data_def keep_item_def post_entry_def js_or_def refeed_def
      truthy_def str_def col_category_def col_problem_def col_solution1_def col_solution2_def
      col_solution_def enumerate_eq_zip upt_rec)

section \<open>Properties of the page\<close>

text \<open>
  C1. Whenever a ranking result is held, the empty one included, the display list is that
  result as it is: the category and the search text are not applied to it. With the held
  result \<open>[]\<close> the display list is \<open>[]\<close> for every category.
\<close>

theorem held_result_is_display_list:
  "(aiAnalysisResults s = Some results \<longrightarrow> filteredData lower s = results)
   \<and> filteredData lower (s\<lparr>aiAnalysisResults := Some [], selectedCategory := c\<rparr>) = []"
  by (simp add: filteredData_def)

theorem held_result_is_display_list_witness:
  "aiAnalysisResults (loaded_state\<lparr>aiAnalysisResults := Some [], selectedCategory := str ''Programming''\<rparr>)
     = Some []
   \<and> filteredData id (loaded_state\<lparr>aiAnalysisResults := Some [], selectedCategory := str ''Programming''\<rparr>)
     = []
   \<and> filteredData id (loaded_state\<lparr>aiAnalysisResults := None, selectedCategory := str ''Programming''\<rparr>)
     = [sample_item (str ''Programming'')]"
  using held_result_is_display_list
    [of "loaded_state\<lparr>aiAnalysisResults := Some [], selectedCategory := str ''Programming''\<rparr>" "[]" id]
  by (simp add: filteredData_def loaded_state_def initial_state_def sample_item_def
      startsWith_def str_def)

lemma click_is_gated: "isAiSearching s \<Longrightarrow> ui_step s ClickSearch = s"
  by simp

lemma trim_Nil: "trim [] = []"
  by (simp add: trim_def rtrim_def)

text \<open>
  C7 on the code. The search button is disabled while a ranking request is in flight, but
  the Enter key of the search box calls \<open>handleAiSearch\<close> without looking at the flag:
  after the query \<open>a\<close> is typed and Enter is pressed, the flag is set and one request is
  pending; a click then changes nothing, and a second Enter sends a second request.
\<close>

theorem enter_key_not_gated:
  "isAiSearching (foldl ui_step loaded_state [ChangeText (str ''a''), PressEnter])
   \<and> pending (foldl ui_step loaded_state [ChangeText (str ''a''), PressEnter]) = [str ''a'']
   \<and> ui_step (foldl ui_step loaded_state [ChangeText (str ''a''), PressEnter]) ClickSearch
       = foldl ui_step loaded_state [ChangeText (str ''a''), PressEnter]
   \<and> pending (foldl ui_step loaded_state [ChangeText (str ''a''), PressEnter, PressEnter])
       = [str ''a'', str ''a'']"
  by (simp add: loaded_state_def initial_state_def handleAiSearch_def trim_def rtrim_def
      is_space_def truthy_def str_def)

section \<open>Lemmas on the string operations\<close>

lemma startsWith_iff: "startsWith s p \<longleftrightarrow> (\<exists>v. s = p @ v)"
  unfolding startsWith_def by (metis append_eq_conv_conj append_take_drop_id)

lemma includes_str_iff: "includes_str s p \<longleftrightarrow> (\<exists>u v. s = u @ p @ v)"
proof (induction s)
  case Nil
  then show ?case by auto
next
  case (Cons c cs)
  show ?case
  proof
    assume "includes_str (c # cs) p"
    then consider "startsWith (c # cs) p" | "includes_str cs p" by auto
    then show "\<exists>u v. c # cs = u @ p @ v"
    proof cases
      case 1
      then show ?thesis unfolding startsWith_iff by (metis append_Nil)
    next
      case 2
      then obtain u v where "cs = u @ p @ v" using Cons.IH by blast
      then have "c # cs = (c # u) @ p @ v" by simp
      then show ?thesis by blast
    qed
  next
    assume "\<exists>u v. c # cs = u @ p @ v"
    then obtain u v where uv: "c # cs = u @ p @ v" by blast
    show "includes_str (c # cs) p"
    proof (cases u)
      case Nil
      with uv have "startsWith (c # cs) p" unfolding startsWith_iff by auto
      then show ?thesis by simp
    next
      case (Cons a u')
      with uv have "cs = u' @ p @ v" by simp
      then show ?thesis using Cons.IH by auto
    qed
  qed
qed

lemma trim_rtrim: "trim s = rtrim (dropWhile is_space s)"
  by (simp add: trim_def)

lemma rtrim_prefix: "\<exists>b. s = rtrim s @ b \<and> (\<forall>c \<in> set b. is_space c)"
proof -
  have "rev s = takeWhile is_space (rev s) @ dropWhile is_space (rev s)" by simp
  then have "s = rtrim s @ rev (takeWhile is_space (rev s))"
    unfolding rtrim_def by (metis rev_append rev_rev_ident)
  moreover have "\<forall>c \<in> set (rev (takeWhile is_space (rev s))). is_space c"
    by (auto dest: set_takeWhileD)
  ultimately show ?thesis by blast
qed

lemma trim_sub: "\<exists>a b. s = a @ trim s @ b"
proof -
  obtain b where "dropWhile is_space s = trim s @ b"
    using rtrim_prefix [of "dropWhile is_space s"] by (auto simp: trim_rtrim)
  then have "s = takeWhile is_space s @ trim s @ b"
    by (metis takeWhile_dropWhile_id)
  then show ?thesis by blast
qed

lemma includes_trim: "includes_str (trim s) p \<Longrightarrow> includes_str s p"
proof -
  assume "includes_str (trim s) p"
  then obtain u v where "trim s = u @ p @ v" by (auto simp: includes_str_iff)
  moreover obtain a b where "s = a @ trim s @ b" using trim_sub by blast
  ultimately have "s = (a @ u) @ p @ (v @ b)" by simp
  then show ?thesis unfolding includes_str_iff by blast
qed

lemma includes_drop: "includes_str (drop n s) p \<Longrightarrow> includes_str s p"
proof -
  assume "includes_str (drop n s) p"
  then obtain u v where "drop n s = u @ p @ v" by (auto simp: includes_str_iff)
  then have "s = (take n s @ u) @ p @ v" by (metis append_assoc append_take_drop_id)
  then show ?thesis unfolding includes_str_iff by blast
qed

lemma rtrim_last: "rtrim s \<noteq> [] \<Longrightarrow> \<not> is_space (last (rtrim s))"
  unfolding rtrim_def by (metis hd_dropWhile last_rev rev_is_Nil_conv)

lemma rtrim_id: "s = [] \<or> \<not> is_space (last s) \<Longrightarrow> rtrim s = s"
  unfolding rtrim_def
  by (metis dropWhile.simps(1) dropWhile_eq_self_iff hd_rev rev_is_Nil_conv rev_rev_ident) 

lemma rtrim_hd: "s \<noteq> [] \<Longrightarrow> \<not> is_space (hd s) \<Longrightarrow> rtrim s \<noteq> [] \<and> hd (rtrim s) = hd s"
proof -
  assume s: "s \<noteq> []" "\<not> is_space (hd s)"
  obtain b where b: "s = rtrim s @ b" "\<forall>c \<in> set b. is_space c" using rtrim_prefix by blast
  have "rtrim s \<noteq> []"
  proof
    assume "rtrim s = []"
    with b have "s = b" by simp
    with s b show False by (metis hd_in_set)
  qed
  then show ?thesis using b by (metis hd_append2)
qed

lemma trim_trim: "trim (trim s) = trim s"
proof -
  let ?d = "dropWhile is_space s"
  have t: "trim s = rtrim ?d" by (rule trim_rtrim)
  show ?thesis
  proof (cases "trim s = []")
    case True
    then have "trim (trim s) = trim []" by (rule arg_cong)
    then show ?thesis using True by (simp add: trim_Nil)
  next
    case False
    then have d: "?d \<noteq> []" by (auto simp: trim_def rtrim_def dest: set_dropWhileD)
    then have "\<not> is_space (hd ?d)" by (rule hd_dropWhile)
    with d have "hd (trim s) = hd ?d" "\<not> is_space (hd (trim s))"
      using rtrim_hd [of ?d] by (simp_all add: t)
    then have "dropWhile is_space (trim s) = trim s"
      using False by (simp add: dropWhile_eq_self_iff)
    moreover have "rtrim (trim s) = trim s"
      using False rtrim_last [of ?d] by (intro rtrim_id) (simp add: t)
    ultimately show ?thesis by (simp add: trim_rtrim [of "trim s"])
  qed
qed

lemma trim_all_space: "\<forall>c \<in> set s. is_space c \<Longrightarrow> trim s = []"
proof -
  assume "\<forall>c \<in> set s. is_space c"
  then have "dropWhile is_space s = []" by simp
  then show ?thesis unfolding trim_def rtrim_def by (simp only: rev.simps dropWhile.simps)
qed

lemma remove_all_skip:
  "b \<notin> set t \<Longrightarrow> remove_all (b # p) (t @ s) = t @ remove_all (b # p) s"
  by (induction t) (auto simp: startsWith_def)


lemma keeps_two:
  "\<not> startsWith cs [b, b] \<Longrightarrow> \<not> startsWith (remove_all [b, b, b] cs) [b, b]"
proof (cases cs)
  case Nil
  then show ?thesis by (simp add: startsWith_def)
next
  case (Cons x xs)
  assume n: "\<not> startsWith cs [b, b]"
  show ?thesis
  proof (cases xs)
    case Nil
    with Cons show ?thesis by (simp add: startsWith_def)
  next
    case (Cons y ys)
    with n \<open>cs = x # xs\<close> show ?thesis by (cases ys) (auto simp: startsWith_def)
  qed
qed

lemma remove_all_no_match:
  "\<not> includes_str (remove_all [b, b, b] s) [b, b, b]"
proof (induction "[b, b, b]" s rule: remove_all.induct)
  case 1
  then show ?case by simp
next
  case (2 c cs)
  show ?case
  proof (cases "startsWith (c # cs) [b, b, b]")
    case True
    with 2 show ?thesis by simp
  next
    case False
    have "\<not> startsWith (c # remove_all [b, b, b] cs) [b, b, b]"
    proof
      assume a: "startsWith (c # remove_all [b, b, b] cs) [b, b, b]"
      then have "c = b" and "startsWith (remove_all [b, b, b] cs) [b, b]"
        by (auto simp: startsWith_iff)
      then have "startsWith cs [b, b]" using keeps_two by blast
      with \<open>c = b\<close> have "startsWith (c # cs) [b, b, b]" by (auto simp: startsWith_iff)
      with False show False by simp
    qed
    with 2 False show ?thesis by simp
  qed
qed

lemma sanitize_no_fence: "\<not> includes_str (sanitize raw) fence"
proof -
  let ?c = "trim (remove_all fence (remove_all fence_json raw))"
  have f: "fence = [0x60, 0x60, 0x60]" by (simp add: fence_def str_def)
  have "\<not> includes_str (remove_all fence (remove_all fence_json raw)) fence"
    unfolding f by (rule remove_all_no_match)
  then have c: "\<not> includes_str ?c fence"
    using includes_trim by blast
  then have "\<not> includes_str (drop 4 ?c) fence"
    using includes_drop by blast
  then have d: "\<not> includes_str (trim (drop 4 ?c)) fence"
    using includes_trim by blast
  have "sanitize raw = ?c \<or> sanitize raw = trim (drop 4 ?c)"
    by (simp add: sanitize_def Let_def)
  with c d show ?thesis by metis
qed

lemma sanitize_trimmed: "trim (sanitize raw) = sanitize raw"
proof -
  let ?c = "trim (remove_all fence (remove_all fence_json raw))"
  have "sanitize raw = ?c \<or> sanitize raw = trim (drop 4 ?c)"
    by (simp add: sanitize_def Let_def)
  then show ?thesis by (metis trim_trim)
qed

lemma rtrim_Cons: "\<not> is_space c \<Longrightarrow> rtrim (c # s) = c # rtrim s"
  by (simp add: rtrim_def dropWhile_append)

lemma trim_Cons: "\<not> is_space c \<Longrightarrow> trim (c # s) = c # rtrim s"
  by (simp add: trim_rtrim rtrim_Cons)

lemma rtrim_rtrim: "rtrim (rtrim s) = rtrim s"
  using rtrim_last [of s] by (intro rtrim_id) blast

lemma rtrim_append:
  assumes "d \<noteq> []" "\<not> is_space (hd d)"
  shows "rtrim (a @ d) = a @ rtrim d"
proof -
  have "hd d \<in> set (rev d)" using assms(1) by simp
  with assms(2) have "\<not> (\<forall>x \<in> set (rev d). is_space x)" by blast
  then show ?thesis by (auto simp: rtrim_def dropWhile_append)
qed

lemma trim_of_rtrim: "trim (rtrim t) = trim t"
proof (cases "\<forall>c \<in> set t. is_space c")
  case True
  then have "dropWhile is_space (rev t) = []" by simp
  then have "rtrim t = []" unfolding rtrim_def by (simp only: rev.simps)
  with True show ?thesis by (simp add: trim_all_space trim_Nil)
next
  case False
  let ?a = "takeWhile is_space t" and ?d = "dropWhile is_space t"
  have d: "?d \<noteq> []" using False by simp
  then have h: "\<not> is_space (hd ?d)" by (rule hd_dropWhile)
  have "rtrim t = rtrim (?a @ ?d)" by simp
  also have "\<dots> = ?a @ rtrim ?d" using d h by (rule rtrim_append)
  finally have r: "rtrim t = ?a @ rtrim ?d" .
  have nz: "rtrim ?d \<noteq> []" and hd: "hd (rtrim ?d) = hd ?d"
    using rtrim_hd [OF d h] by simp_all
  have a: "\<forall>x \<in> set ?a. is_space x" by (auto dest: set_takeWhileD)
  have "dropWhile is_space (rtrim t) = dropWhile is_space (rtrim ?d)"
    unfolding r using a by (simp add: dropWhile_append)
  also have "\<dots> = rtrim ?d"
    using nz hd h by (simp add: dropWhile_eq_self_iff)
  finally have "trim (rtrim t) = rtrim (rtrim ?d)"
    by (simp add: trim_rtrim [of "rtrim t"])
  then show ?thesis by (simp add: rtrim_rtrim trim_rtrim [of t])
qed

lemma remove_all_prefix: "p \<noteq> [] \<Longrightarrow> remove_all p (p @ s) = remove_all p s"
  by (cases p) (simp_all add: startsWith_def)

lemma remove_fences_plain:
  assumes "0x60 \<notin> set t"
  shows "remove_all fence (remove_all fence_json t) = t"
proof -
  have "remove_all fence_json (t @ []) = t @ remove_all fence_json []"
    unfolding fence_json_def str_def using assms by (simp only: list.map of_char_Char) (rule remove_all_skip, simp)
  moreover have "remove_all fence (t @ []) = t @ remove_all fence []"
    unfolding fence_def str_def using assms by (simp only: list.map of_char_Char) (rule remove_all_skip, simp)
  ultimately show ?thesis by simp
qed

lemma fence_unfold: "fence = [0x60, 0x60, 0x60]"
  by (simp add: fence_def str_def)

lemma fence_json_unfold: "fence_json = [0x60, 0x60, 0x60, 0x6A, 0x73, 0x6F, 0x6E]"
  by (simp add: fence_json_def str_def)

lemma json_unfold: "str ''json'' = [0x6A, 0x73, 0x6F, 0x6E]"
  by (simp add: str_def)

lemma remove_tagged:
  assumes "0x60 \<notin> set t"
  shows "remove_all fence (remove_all fence_json (fence_json @ t @ fence)) = t"
proof -
  have "remove_all fence_json (fence_json @ t @ fence) = remove_all fence_json (t @ fence)"
    by (rule remove_all_prefix) (simp add: fence_json_unfold)
  also have "\<dots> = t @ remove_all fence_json fence"
    unfolding fence_json_unfold using assms by (rule remove_all_skip)
  also have "remove_all fence_json fence = fence"
    by (simp add: fence_json_unfold fence_unfold startsWith_def)
  finally have "remove_all fence (remove_all fence_json (fence_json @ t @ fence)) =
                remove_all fence (t @ fence)" by simp
  also have "\<dots> = t @ remove_all fence fence"
    unfolding fence_unfold using assms by (rule remove_all_skip)
  also have "remove_all fence fence = []"
    by (simp add: fence_unfold startsWith_def)
  finally show ?thesis by simp
qed

lemma sanitize_tagged_fence:
  "0x60 \<notin> set t \<Longrightarrow> sanitize (fence_json @ t @ fence) = sanitize t"
  by (simp add: sanitize_def remove_tagged remove_fences_plain)

lemma sanitize_json_word:
  assumes "0x60 \<notin> set t"
  shows "sanitize (str ''json'' @ t) = trim t"
proof -
  have "0x60 \<notin> set (str ''json'' @ t)" using assms by (simp add: json_unfold)
  then have a: "remove_all fence (remove_all fence_json (str ''json'' @ t)) = str ''json'' @ t"
    by (rule remove_fences_plain)
  have b: "trim (str ''json'' @ t) = str ''json'' @ rtrim t"
    by (simp add: json_unfold trim_Cons rtrim_Cons is_space_def)
  have sw: "startsWith (str ''json'' @ rtrim t) (str ''json'')"
    by (simp add: startsWith_def)
  have dr: "drop 4 (str ''json'' @ rtrim t) = rtrim t"
    by (simp add: json_unfold)
  show ?thesis
    unfolding sanitize_def Let_def a b using sw by (simp only: if_True dr trim_of_rtrim)
qed

lemma startsWith_json_fence:
  assumes "0x60 \<notin> set t"
  shows "startsWith (t @ fence) (str ''json'') = startsWith t (str ''json'')"
proof (cases "4 \<le> length t")
  case True
  then show ?thesis by (simp add: startsWith_def json_unfold)
next
  case False
  then have lt: "length t < 4" by simp
  have len: "length (str ''json'') = 4" by (simp add: json_unfold)
  have a: "\<not> startsWith t (str ''json'')"
  proof
    assume "startsWith t (str ''json'')"
    then have "take (length (str ''json'')) t = str ''json''"
      unfolding startsWith_def .
    then have "length (take (length (str ''json'')) t) = length (str ''json'')"
      by (rule arg_cong)
    with lt show False by (simp add: json_unfold)
  qed
  have b: "\<not> startsWith (t @ fence) (str ''json'')"
  proof
    assume "startsWith (t @ fence) (str ''json'')"
    then have "take 4 (t @ fence) = str ''json''"
      unfolding startsWith_def len .
    then have "take 4 (t @ fence) ! length t = str ''json'' ! length t" by simp
    moreover have "take 4 (t @ fence) ! length t = (t @ fence) ! length t"
      using lt by (rule nth_take)
    moreover have "(t @ fence) ! length t = 0x60"
      by (simp add: fence_unfold)
    moreover have "str ''json'' ! length t \<in> set (str ''json'')"
      using lt by (intro nth_mem) (simp only: len)
    moreover have "0x60 \<notin> set (str ''json'')"
      by (simp add: json_unfold)
    ultimately show False by simp
  qed
  from a b show ?thesis by simp
qed

lemma remove_bare:
  assumes "0x60 \<notin> set t" "\<not> startsWith t (str ''json'')"
  shows "remove_all fence (remove_all fence_json (fence @ t @ fence)) = t"
proof -
  have n: "\<not> startsWith (t @ fence) (str ''json'')"
    using assms by (simp add: startsWith_json_fence)
  have tail: "remove_all fence_json (t @ fence) = t @ fence"
  proof -
    have "remove_all fence_json (t @ fence) = t @ remove_all fence_json fence"
      unfolding fence_json_unfold using assms(1) by (rule remove_all_skip)
    also have "remove_all fence_json fence = fence"
      by (simp add: fence_json_unfold fence_unfold startsWith_def)
    finally show ?thesis .
  qed
  have "remove_all fence_json (fence @ t @ fence) = fence @ t @ fence"
  proof (cases t)
    case Nil
    then show ?thesis by (simp add: fence_json_unfold fence_unfold startsWith_def)
  next
    case (Cons c cs)
    with assms(1) have c: "c \<noteq> 0x60" by auto
    have "\<not> startsWith (fence @ t @ fence) (fence @ str ''json'')"
      using n by (simp add: startsWith_def)
    then have s0: "\<not> startsWith (0x60 # 0x60 # 0x60 # (t @ fence)) fence_json"
      by (simp add: fence_unfold fence_json_unfold json_unfold)
    have s1: "\<not> startsWith (0x60 # 0x60 # (t @ fence)) fence_json"
      using c Cons by (simp add: startsWith_def fence_json_unfold)
    have s2: "\<not> startsWith (0x60 # (t @ fence)) fence_json"
      using c Cons by (simp add: startsWith_def fence_json_unfold)
    have "remove_all fence_json (0x60 # 0x60 # 0x60 # (t @ fence)) =
          0x60 # 0x60 # 0x60 # remove_all fence_json (t @ fence)"
      using s0 s1 s2 by (simp only: remove_all.simps if_False simp_thms)
    then show ?thesis by (simp only: tail) (simp add: fence_unfold)
  qed
  then have "remove_all fence (remove_all fence_json (fence @ t @ fence)) =
             remove_all fence (fence @ (t @ fence))" by simp
  also have "\<dots> = remove_all fence (t @ fence)"
    by (rule remove_all_prefix) (simp add: fence_unfold)
  also have "\<dots> = t @ remove_all fence fence"
    unfolding fence_unfold using assms(1) by (rule remove_all_skip)
  also have "remove_all fence fence = []"
    by (simp add: fence_unfold startsWith_def)
  finally show ?thesis by simp
qed

lemma sanitize_bare_fence:
  "0x60 \<notin> set t \<Longrightarrow> \<not> startsWith t (str ''json'') \<Longrightarrow> sanitize (fence @ t @ fence) = sanitize t"
  by (simp add: sanitize_def remove_bare remove_fences_plain)

section \<open>Lemmas on the ranking route\<close>

lemma sortedData_Nil: "sortedData corpus [] = []"
  by (simp add: sortedData_def)

lemma sortedData_Cons:
  "sortedData corpus (a # ids) =
     (case find (\<lambda>item. strict_eq_id (item_id item) a) corpus of
        None \<Rightarrow> sortedData corpus ids
      | Some x \<Rightarrow> x # sortedData corpus ids)"
  by (simp add: sortedData_def split: option.splits)





lemma find_unique:
  assumes "distinct (map item_id corpus)" "e \<in> set corpus" "item_id e = Some n" "json_int a = Some (int n)"
  shows "find (\<lambda>item. strict_eq_id (item_id item) a) corpus = Some e"
  using assms
proof (induction corpus)
  case Nil
  then show ?case by simp
next
  case (Cons x xs)
  have "item_id e \<in> item_id ` set xs" if "e \<in> set xs" using that by simp
  with Cons show ?case by (auto simp: strict_eq_id_def split: option.splits)
qed

lemma POST_reaches_service:
  assumes "request_json = Some b" "destructure_query b = Some (Some (JStr query))" "query \<noteq> []"
    "configured ev" "sheet ev = Fetched True rows"
  shows "POST ev request_json =
     (case gemini ev (prompt query (problemsList (post_data rows))) of
        None \<Rightarrow> \<lparr>response = server_error External, fetched = True,
                  prompts = [prompt query (problemsList (post_data rows))]\<rparr>
      | Some responseText \<Rightarrow>
     (case JSON_parse (sanitize responseText) of
        None \<Rightarrow>
          \<lparr>response = server_error (Error_msg (str ''Failed to parse AI response'')),
            fetched = True, prompts = [prompt query (problemsList (post_data rows))]\<rparr>
      | Some (JArr sortedIds) \<Rightarrow>
          \<lparr>response = \<lparr>status = 200, body = Items (sortedData (post_data rows) sortedIds)\<rparr>,
            fetched = True, prompts = [prompt query (problemsList (post_data rows))]\<rparr>
      | Some _ \<Rightarrow> \<lparr>response = server_error TypeError, fetched = True,
                    prompts = [prompt query (problemsList (post_data rows))]\<rparr>))"
  using assms by (simp add: POST_def truthy_def Let_def)

lemma query_request_destructure:
  "query_request q = Some (JObj [(str ''query'', JStr q)]) \<and>
   destructure_query (JObj [(str ''query'', JStr q)]) = Some (Some (JStr q))"
  by (simp add: query_request_def)



lemma post_data_distinct_ids: "distinct (map item_id (post_data rows))"
proof -
  have "map item_id (post_data rows) =
        map Some (filter (\<lambda>i. keep_item (post_entry i (rows ! i))) [0..<length rows])"
    by (simp add: post_data_index comp_def post_entry_def)
  then show ?thesis by (simp add: distinct_map)
qed







lemma sample_env:
  "configured \<lparr>api_key = Some (str ''k''), sheet = sh, gemini = g\<rparr>
   \<and> sheet \<lparr>api_key = Some (str ''k''), sheet = sh, gemini = g\<rparr> = sh
   \<and> gemini \<lparr>api_key = Some (str ''k''), sheet = sh, gemini = constant_service answer\<rparr> p = Some answer
   \<and> str ''q'' \<noteq> []"
  by (simp add: configured_def truthy_def constant_service_def str_def)


lemma sanitize_empty_array: "JSON_parse (sanitize (str ''[]'')) = Some (JArr [])"
  by (simp add: sanitize_def fence_def fence_json_def startsWith_def trim_def rtrim_def
      is_space_def str_def JSON_parse_def json_ws_def)

lemma server_error_status: "status (server_error t) = 500"
  by (simp add: server_error_def)

lemma sanitize_fenced: "sanitize fenced_answer = str ''[3,1,2]''"
  by (simp add: fenced_answer_def sanitize_def fence_def fence_json_def startsWith_def trim_def rtrim_def
      is_space_def str_def)

lemma parse_312: "JSON_parse (str ''[3,1,2]'') = Some (JArr [JNum 3 0, JNum 1 0, JNum 2 0])"
  by (simp add: JSON_parse_def str_def json_ws_def is_digit_def scan_number_def starts_def
      digits_val_def Let_def)

lemma sorted_312:
  assumes "distinct (map item_id corpus)"
    and "e1 \<in> set corpus" "item_id e1 = Some 1"
    and "e2 \<in> set corpus" "item_id e2 = Some 2"
    and "e3 \<in> set corpus" "item_id e3 = Some 3"
  shows "sortedData corpus [JNum 3 0, JNum 1 0, JNum 2 0] = [e3, e1, e2]"
proof -
  have "find (\<lambda>item. strict_eq_id (item_id item) (JNum 3 0)) corpus = Some e3"
    using assms(1,6,7) by (rule find_unique) simp
  moreover have "find (\<lambda>item. strict_eq_id (item_id item) (JNum 1 0)) corpus = Some e1"
    using assms(1,2,3) by (rule find_unique) simp
  moreover have "find (\<lambda>item. strict_eq_id (item_id item) (JNum 2 0)) corpus = Some e2"
    using assms(1,4,5) by (rule find_unique) simp
  ultimately show ?thesis by (simp add: sortedData_Cons sortedData_Nil)
qed

lemma post_data_four_rows:
  "post_data four_rows =
     [post_entry 0 (sample_row (str ''a'')), post_entry 1 (sample_row (str ''b'')),
      post_entry 2 (sample_row (str ''c'')), post_entry 3 (sample_row (str ''d''))]"
  by (simp add: four_rows_def post_data_def keep_item_def post_entry_def sample_row_def js_or_def
      truthy_def str_def col_category_def col_problem_def col_solution1_def col_solution2_def
      col_solution_def)

lemma plain_one: "0x60 \<notin> set (str ''[1]'') \<and> \<not> startsWith (str ''[1]'') (str ''json'')
    \<and> \<not> startsWith (trim (str ''[1]'')) (str ''json'') \<and> trim (str ''[1]'') = str ''[1]''"
  by (simp add: str_def startsWith_def trim_def rtrim_def is_space_def)


lemma POST_not_configured:
  assumes "request_json = Some b" "destructure_query b = Some (Some (JStr query))" "query \<noteq> []"
    "\<not> configured ev"
  shows "POST ev request_json =
     \<lparr>response = \<lparr>status = 503, body = Failure (str ''API Key missing on server'') None\<rparr>,
       fetched = False, prompts = []\<rparr>"
  using assms by (simp add: POST_def truthy_def)

lemma POST_sheet_failed:
  assumes "request_json = Some b" "destructure_query b = Some (Some (JStr query))" "query \<noteq> []"
    "configured ev"
  shows "sheet ev = FetchFailed \<Longrightarrow>
           POST ev request_json = \<lparr>response = server_error External, fetched = True, prompts = []\<rparr>"
    and "sheet ev = Fetched False rows \<Longrightarrow>
           POST ev request_json =
             \<lparr>response = server_error (Error_msg (str ''Failed to fetch data source'')),
               fetched = True, prompts = []\<rparr>"
  using assms by (simp_all add: POST_def truthy_def)





lemma blank: "str '' '' \<noteq> [] \<and> (\<forall>c \<in> set (str '' ''). is_space c)"
  by (simp add: str_def is_space_def)





section \<open>Properties of the ranking route\<close>







text \<open>
  C8. The text handed to the parser has no white space at either end and contains no
  fence marker. For a text \<open>t\<close> without backquotes, a fence with the language tag
  around \<open>t\<close> and a bare fence around \<open>t\<close> (when \<open>t\<close> does not itself start
  with \<open>json\<close>) are cleaned to what \<open>t\<close> alone is cleaned to, the word \<open>json\<close>
  in front of \<open>t\<close> is removed, and \<open>t\<close> is only trimmed when it does not start with
  that word. The fenced answer \<open>[3,1,2]\<close> is cleaned to \<open>[3,1,2]\<close>, which parses
  as the array of 3, 1 and 2; and when the corpus has items with the ids 1, 2 and 3, the
  route answers with these items in the order 3, 1, 2.
\<close>

theorem sanitize_then_rank:
  "trim (sanitize raw) = sanitize raw
   \<and> \<not> includes_str (sanitize raw) fence
   \<and> (0x60 \<notin> set t \<longrightarrow>
        sanitize (fence_json @ t @ fence) = sanitize t
        \<and> sanitize (str ''json'' @ t) = trim t
        \<and> (\<not> startsWith t (str ''json'') \<longrightarrow> sanitize (fence @ t @ fence) = sanitize t)
        \<and> (\<not> startsWith (trim t) (str ''json'') \<longrightarrow> sanitize t = trim t))
   \<and> sanitize fenced_answer = str ''[3,1,2]''
   \<and> JSON_parse (str ''[3,1,2]'') = Some (JArr [JNum 3 0, JNum 1 0, JNum 2 0])
   \<and> (query \<noteq> [] \<and> configured ev \<and> sheet ev = Fetched True rows
        \<and> gemini ev (prompt query (problemsList (post_data rows))) =
            Some fenced_answer
        \<and> e1 \<in> set (post_data rows) \<and> item_id e1 = Some 1
        \<and> e2 \<in> set (post_data rows) \<and> item_id e2 = Some 2
        \<and> e3 \<in> set (post_data rows) \<and> item_id e3 = Some 3
      \<longrightarrow> response (POST ev (query_request query)) = \<lparr>status = 200, body = Items [e3, e1, e2]\<rparr>)"
proof (intro conjI impI)
  show "trim (sanitize raw) = sanitize raw" by (rule sanitize_trimmed)
  show "\<not> includes_str (sanitize raw) fence" by (rule sanitize_no_fence)
  show "sanitize (fence_json @ t @ fence) = sanitize t" if "0x60 \<notin> set t"
    using that by (rule sanitize_tagged_fence)
  show "sanitize (str ''json'' @ t) = trim t" if "0x60 \<notin> set t"
    using that by (rule sanitize_json_word)
  show "sanitize (fence @ t @ fence) = sanitize t"
    if "0x60 \<notin> set t" "\<not> startsWith t (str ''json'')"
    using that by (rule sanitize_bare_fence)
  show "sanitize t = trim t" if "0x60 \<notin> set t" "\<not> startsWith (trim t) (str ''json'')"
    using that by (simp add: sanitize_def remove_fences_plain)
  show "sanitize fenced_answer = str ''[3,1,2]''"
    by (rule sanitize_fenced)
  show "JSON_parse (str ''[3,1,2]'') = Some (JArr [JNum 3 0, JNum 1 0, JNum 2 0])"
    by (rule parse_312)
next
  assume a: "query \<noteq> [] \<and> configured ev \<and> sheet ev = Fetched True rows
        \<and> gemini ev (prompt query (problemsList (post_data rows))) =
            Some fenced_answer
        \<and> e1 \<in> set (post_data rows) \<and> item_id e1 = Some 1
        \<and> e2 \<in> set (post_data rows) \<and> item_id e2 = Some 2
        \<and> e3 \<in> set (post_data rows) \<and> item_id e3 = Some 3"
  have q: "query_request query = Some (JObj [(str ''query'', JStr query)])"
    and d: "destructure_query (JObj [(str ''query'', JStr query)]) = Some (Some (JStr query))"
    using query_request_destructure [of query] by simp_all
  have "POST ev (query_request query) =
        \<lparr>response = \<lparr>status = 200,
            body = Items (sortedData (post_data rows) [JNum 3 0, JNum 1 0, JNum 2 0])\<rparr>,
         fetched = True, prompts = [prompt query (problemsList (post_data rows))]\<rparr>"
    using a by (simp add: POST_reaches_service [OF q d] sanitize_fenced parse_312)
  moreover have "sortedData (post_data rows) [JNum 3 0, JNum 1 0, JNum 2 0] = [e3, e1, e2]"
    using a by (intro sorted_312 post_data_distinct_ids) simp_all
  ultimately show "response (POST ev (query_request query)) =
      \<lparr>status = 200, body = Items [e3, e1, e2]\<rparr>" by simp
qed

theorem sanitize_then_rank_witness:
  "response (POST \<lparr>api_key = Some (str ''k''), sheet = Fetched True four_rows,
                    gemini = constant_service fenced_answer\<rparr> (query_request (str ''q''))) =
     \<lparr>status = 200,
      body = Items [post_entry 3 (sample_row (str ''d'')), post_entry 1 (sample_row (str ''b'')),
                    post_entry 2 (sample_row (str ''c''))]\<rparr>
   \<and> sanitize (fence_json @ str ''[1]'' @ fence) = str ''[1]''
   \<and> sanitize (fence @ str ''[1]'' @ fence) = str ''[1]''
   \<and> sanitize (str ''json'' @ str ''[1]'') = str ''[1]''"
  using sanitize_then_rank
    [where t = "str ''[1]''" and query = "str ''q''" and rows = four_rows
       and ev = "\<lparr>api_key = Some (str ''k''), sheet = Fetched True four_rows,
                    gemini = constant_service fenced_answer\<rparr>"
       and ?e1.0 = "post_entry 1 (sample_row (str ''b''))"
       and ?e2.0 = "post_entry 2 (sample_row (str ''c''))"
       and ?e3.0 = "post_entry 3 (sample_row (str ''d''))"]
    plain_one sample_env
  by (simp add: post_data_four_rows post_entry_def)



text \<open>
  C10. A query that is not empty and consists of white space only is not answered with
  400 by the route: with the credential set the sheet is fetched, and when the fetch
  succeeds the ranking service receives the prompt with that query. The page, on the
  other hand, sends nothing for such a query: \<open>handleAiSearch\<close> returns at its first
  line, for the Enter key and for the button alike.
\<close>

theorem blank_query_not_rejected:
  assumes "query \<noteq> []" and "\<forall>c \<in> set query. is_space c"
    and "request_json = Some b" and "destructure_query b = Some (Some (JStr query))"
  shows "status (response (POST ev request_json)) \<noteq> 400
     \<and> (configured ev \<longrightarrow> fetched (POST ev request_json))
     \<and> (configured ev \<and> sheet ev = Fetched True rows \<longrightarrow>
          prompts (POST ev request_json) = [prompt query (problemsList (post_data rows))])
     \<and> handleAiSearch (s\<lparr>searchQuery := query\<rparr>) = s\<lparr>searchQuery := query\<rparr>
     \<and> pending (ui_step (s\<lparr>searchQuery := query\<rparr>) PressEnter) = pending s
     \<and> pending (ui_step (s\<lparr>searchQuery := query\<rparr>) ClickSearch) = pending s"
proof (intro conjI impI)
  note a = assms(3) assms(4) assms(1)
  show "status (response (POST ev request_json)) \<noteq> 400"
  proof (cases "configured ev")
    case False
    then show ?thesis using POST_not_configured [OF a] by simp
  next
    case True
    show ?thesis
    proof (cases "sheet ev")
      case FetchFailed
      then show ?thesis using POST_sheet_failed(1) [OF a True] by (simp add: server_error_status)
    next
      case (Fetched ok rows')
      show ?thesis
      proof (cases ok)
        case False
        with Fetched show ?thesis
          using POST_sheet_failed(2) [OF a True, of rows'] by (simp add: server_error_status)
      next
        case True
        with Fetched have "sheet ev = Fetched True rows'" by simp
        note P = POST_reaches_service [OF a \<open>configured ev\<close> this]
        show ?thesis
          unfolding P by (simp add: server_error_status split: option.splits json.splits)
      qed
    qed
  qed
  show "fetched (POST ev request_json)" if c: "configured ev"
  proof (cases "sheet ev")
    case FetchFailed
    then show ?thesis using POST_sheet_failed(1) [OF a c] by simp
  next
    case (Fetched ok rows')
    show ?thesis
    proof (cases ok)
      case False
      with Fetched show ?thesis using POST_sheet_failed(2) [OF a c, of rows'] by simp
    next
      case True
      with Fetched have "sheet ev = Fetched True rows'" by simp
      note P = POST_reaches_service [OF a c this]
      show ?thesis unfolding P by (simp split: option.splits json.splits)
    qed
  qed
  show "prompts (POST ev request_json) = [prompt query (problemsList (post_data rows))]"
    if "configured ev \<and> sheet ev = Fetched True rows"
  proof -
    from that have c: "configured ev" and f: "sheet ev = Fetched True rows" by simp_all
    note P = POST_reaches_service [OF a c f]
    show ?thesis unfolding P by (simp split: option.splits json.splits)
  qed
  have t: "trim query = []" using assms(2) by (rule trim_all_space)
  show h: "handleAiSearch (s\<lparr>searchQuery := query\<rparr>) = s\<lparr>searchQuery := query\<rparr>"
    by (simp add: handleAiSearch_def t truthy_def)
  show "pending (ui_step (s\<lparr>searchQuery := query\<rparr>) PressEnter) = pending s"
    by (simp add: h)
  show "pending (ui_step (s\<lparr>searchQuery := query\<rparr>) ClickSearch) = pending s"
    by (simp add: h)
qed

theorem blank_query_not_rejected_witness:
  "status (response (POST \<lparr>api_key = Some (str ''k''), sheet = Fetched True four_rows,
                             gemini = constant_service (str ''[]'')\<rparr>
        (Some (JObj [(str ''query'', JStr (str '' ''))])))) \<noteq> 400
   \<and> response (POST \<lparr>api_key = Some (str ''k''), sheet = Fetched True four_rows,
                             gemini = constant_service (str ''[]'')\<rparr>
        (Some (JObj [(str ''query'', JStr (str '' ''))]))) = \<lparr>status = 200, body = Items []\<rparr>
   \<and> fetched (POST \<lparr>api_key = Some (str ''k''), sheet = Fetched True four_rows,
                             gemini = constant_service (str ''[]'')\<rparr>
        (Some (JObj [(str ''query'', JStr (str '' ''))])))
   \<and> prompts (POST \<lparr>api_key = Some (str ''k''), sheet = Fetched True four_rows,
                             gemini = constant_service (str ''[]'')\<rparr>
        (Some (JObj [(str ''query'', JStr (str '' ''))]))) =
       [prompt (str '' '') (problemsList (post_data four_rows))]
   \<and> handleAiSearch (loaded_state\<lparr>searchQuery := str '' ''\<rparr>) = loaded_state\<lparr>searchQuery := str '' ''\<rparr>
   \<and> pending (ui_step (loaded_state\<lparr>searchQuery := str '' ''\<rparr>) PressEnter) = []"
proof -
  have "POST \<lparr>api_key = Some (str ''k''), sheet = Fetched True four_rows,
                             gemini = constant_service (str ''[]'')\<rparr>
        (Some (JObj [(str ''query'', JStr (str '' ''))])) =
     \<lparr>response = \<lparr>status = 200, body = Items (sortedData (post_data four_rows) [])\<rparr>,
       fetched = True, prompts = [prompt (str '' '') (problemsList (post_data four_rows))]\<rparr>"
    using blank sample_env sanitize_empty_array
    by (simp add: POST_reaches_service [where rows = four_rows and query = "str '' ''"])
  moreover have "pending loaded_state = []"
    by (simp add: loaded_state_def initial_state_def)
  ultimately show ?thesis
    using blank_query_not_rejected
      [where query = "str '' ''" and request_json = "Some (JObj [(str ''query'', JStr (str '' ''))])"
         and b = "JObj [(str ''query'', JStr (str '' ''))]" and rows = four_rows
         and s = loaded_state
         and ev = "\<lparr>api_key = Some (str ''k''), sheet = Fetched True four_rows,
                             gemini = constant_service (str ''[]'')\<rparr>"]
      blank
    by (simp add: sortedData_Nil)
qed

end
